theory Spec2Isabelle
  imports Main
begin

section \<open>The page: a small model of the DOM the scripts touch\<close>

text \<open>
  The scripts \<^verbatim>\<open>utils.js\<close>, \<^verbatim>\<open>a11y.js\<close>, \<^verbatim>\<open>gallery.js\<close> and \<^verbatim>\<open>lightbox.js\<close> keep their
  state in module-level variables and in the document. The model is one record, \<open>world\<close>,
  holding both, and every function of the source is a function from worlds to worlds.

  Elements are identified by a number (object identity in the source). What the scripts
  read of the document is part of the world: the elements in tree order, the descendants
  and the ancestors of an element, local names, class lists, attributes and text content,
  the focused element, which elements accept \<^verbatim>\<open>focus()\<close>, which are instances of
  \<^verbatim>\<open>HTMLElement\<close>, and what \<^verbatim>\<open>getTabbables\<close> finds in a container.

  The list \<open>keydown\<close> holds the handlers that \<^verbatim>\<open>trapFocus\<close> has registered on the
  document, oldest first, and \<open>fresh_handler\<close> is the number that identifies the next one.
  The lightbox's own handlers are bound once by \<^verbatim>\<open>initLightbox\<close> and never removed; they
  are the functions \<open>onKeydown\<close>, \<open>onBackdropClick\<close> and \<open>onOpenRequested\<close> below.
  Microtasks and timers that are queued but have not run yet are the lists \<open>microtasks\<close>
  and \<open>timers\<close>. The index is an integer, as the payload of the open signal is.

  Where a module declares a function twice (\<^verbatim>\<open>announce\<close> in \<^verbatim>\<open>a11y.js\<close>, \<^verbatim>\<open>on\<close> and
  \<^verbatim>\<open>noOp\<close> in \<^verbatim>\<open>utils.js\<close>), the model follows the first, complete declaration: the
  one documented in the file and the one the lightbox's calls (two arguments) fit.
\<close>

type_synonym elem = nat

datatype selector = Tag string | Class string | HasAttr string

text \<open>
  A focus trap installed by \<^verbatim>\<open>trapFocus\<close>: the \<^verbatim>\<open>handleKeydown\<close> closure registered on the
  document (identified by a number, as \<^verbatim>\<open>removeEventListener\<close> identifies it by object
  identity) with the container it closes over.
\<close>

datatype trap = Trap (trap_id: nat) (trap_container: elem)

text \<open>The cleanup closure \<^verbatim>\<open>trapFocus\<close> returns: the handler to remove and \<^verbatim>\<open>prevActive\<close>.\<close>

datatype release = Release (rel_handler: nat) (rel_prevActive: "elem option")

text \<open>The closure given to \<^verbatim>\<open>queueMicrotask\<close> in \<^verbatim>\<open>trapFocus\<close>: \<^verbatim>\<open>initial\<close> and \<^verbatim>\<open>container\<close>.\<close>

datatype microtask = FocusInitial (mt_initial: "elem option") (mt_container: elem)

text \<open>The \<^verbatim>\<open>refs\<close> bundle of \<^verbatim>\<open>lightbox.js\<close>; each reference may be \<^verbatim>\<open>null\<close>.\<close>

record refs =
  root :: "elem option"
  dialog :: "elem option"
  closeBtn :: "elem option"
  img :: "elem option"
  caption :: "elem option"
  counter :: "elem option"
  prevBtn :: "elem option"
  nextBtn :: "elem option"
  backdrop :: "elem option"

text \<open>
  The live region that \<^verbatim>\<open>liveRegion\<close> creates on its first call: a new \<^verbatim>\<open>div\<close> appended to
  the body, of which the scripts read and write \<^verbatim>\<open>aria-live\<close> and the text. Its other
  attributes (\<^verbatim>\<open>role\<close>, \<^verbatim>\<open>aria-atomic\<close>, the class) are set once and never read, and it
  matches none of the selectors the scripts query, so it is kept apart from the elements
  of the page.
\<close>

record live =
  aria_live :: string
  node_text :: string

record world =
  \<comment> \<open>the document\<close>
  elements :: "elem list"
  descendants :: "elem \<Rightarrow> elem list"
  ancestors :: "elem \<Rightarrow> elem list"
  localName :: "elem \<Rightarrow> string"
  classList :: "elem \<Rightarrow> string list"
  attrs :: "elem \<Rightarrow> string \<Rightarrow> string option"
  textContent :: "elem \<Rightarrow> string"
  activeElement :: "elem option"
  focusables :: "elem set"
  htmlElements :: "elem set"
  tabbables :: "elem \<Rightarrow> elem list"
  \<comment> \<open>the event loop and the effects that leave the page\<close>
  keydown :: "trap list"
  microtasks :: "microtask list"
  timers :: "string list"
  preloaded :: "string list"
  fresh_handler :: nat
  \<comment> \<open>\<^verbatim>\<open>a11y.js\<close>: \<^verbatim>\<open>let lastFocused\<close>\<close>
  lastFocused :: "elem option"
  \<comment> \<open>\<^verbatim>\<open>utils.js\<close>: \<^verbatim>\<open>let _liveNode\<close>\<close>
  liveNode :: "live option"
  \<comment> \<open>\<^verbatim>\<open>lightbox.js\<close>: \<^verbatim>\<open>refs\<close> and \<^verbatim>\<open>state\<close>\<close>
  refs :: refs
  items :: "elem list"
  index :: int
  releaseFocusFn :: "release option"
  \<comment> \<open>\<^verbatim>\<open>gallery.js\<close>: \<^verbatim>\<open>refs.grid\<close> and \<^verbatim>\<open>state.items\<close>\<close>
  gallery_grid :: "elem option"
  gallery_items :: "elem list"

subsection \<open>JavaScript values\<close>

text \<open>
  \<^verbatim>\<open>getAttribute\<close> gives a string or \<^verbatim>\<open>null\<close>, optional chaining gives \<^verbatim>\<open>undefined\<close>; both are
  \<open>None\<close> here. The empty string is falsy as well, so \<^verbatim>\<open>a || b\<close> is \<open>b\<close> unless \<open>a\<close> is a
  non-empty string.
\<close>

definition truthy :: "string option \<Rightarrow> bool" where
  "truthy v = (case v of None \<Rightarrow> False | Some s \<Rightarrow> s \<noteq> [])"

definition js_or :: "string option \<Rightarrow> string option \<Rightarrow> string option" where
  "js_or a b = (if truthy a then a else b)"

text \<open>\<^verbatim>\<open>v || ''\<close>: the string, or the empty string for \<^verbatim>\<open>null\<close> and \<^verbatim>\<open>undefined\<close>.\<close>

definition or_empty :: "string option \<Rightarrow> string" where
  "or_empty v = (case v of None \<Rightarrow> [] | Some s \<Rightarrow> s)"

text \<open>
  The remainder \<^verbatim>\<open>a % b\<close> of JavaScript truncates: its sign is the sign of \<open>a\<close>. For
  \<open>b = 0\<close> JavaScript gives \<^verbatim>\<open>NaN\<close>; every caller in the source checks
  \<^verbatim>\<open>state.items.length\<close> before it divides, so that case is not reached.
\<close>

definition js_rem :: "int \<Rightarrow> int \<Rightarrow> int" where
  "js_rem a b = (if a < 0 then - ((- a) mod \<bar>b\<bar>) else a mod \<bar>b\<bar>)"

text \<open>An array read \<^verbatim>\<open>xs[i]\<close>: \<^verbatim>\<open>undefined\<close> outside \<open>0 .. length - 1\<close>.\<close>

definition at_index :: "'a list \<Rightarrow> int \<Rightarrow> 'a option" where
  "at_index xs i = (if 0 \<le> i \<and> i < int (length xs) then Some (xs ! nat i) else None)"

text \<open>\<^verbatim>\<open>xs.indexOf(x)\<close>, with \<open>None\<close> for \<open>-1\<close>.\<close>

fun indexOf :: "'a list \<Rightarrow> 'a \<Rightarrow> nat option" where
  "indexOf [] x = None"
| "indexOf (y # ys) x = (if y = x then Some 0 else map_option Suc (indexOf ys x))"

text \<open>The decimal digits of a number, as a template literal \<^verbatim>\<open>${n}\<close> prints an integer.\<close>

fun digits :: "nat \<Rightarrow> string" where
  "digits n = (if n < 10 then [''0123456789'' ! n]
               else digits (n div 10) @ [''0123456789'' ! (n mod 10)])"

declare digits.simps [simp del]

definition js_String :: "int \<Rightarrow> string" where
  "js_String i = (if i < 0 then CHR ''-'' # digits (nat (- i)) else digits (nat i))"

subsection \<open>Selectors and queries\<close>

fun matches :: "world \<Rightarrow> elem \<Rightarrow> selector \<Rightarrow> bool" where
  "matches w e (Tag t) = (localName w e = t)"
| "matches w e (Class c) = (c \<in> set (classList w e))"
| "matches w e (HasAttr k) = (attrs w e k \<noteq> None)"

text \<open>A selector list \<^verbatim>\<open>a, b\<close> matches an element that matches one of its members.\<close>

definition matchesAny :: "world \<Rightarrow> selector list \<Rightarrow> elem \<Rightarrow> bool" where
  "matchesAny w sels e = list_ex (matches w e) sels"

text \<open>\<^verbatim>\<open>qsa(root, sel)\<close>: the descendants of \<open>root\<close> that match, in tree order.\<close>

definition qsa :: "world \<Rightarrow> elem \<Rightarrow> selector list \<Rightarrow> elem list" where
  "qsa w r sels = filter (matchesAny w sels) (descendants w r)"

text \<open>\<^verbatim>\<open>root.querySelector(sel)\<close>: the first match, or \<^verbatim>\<open>null\<close>.\<close>

definition querySelector :: "world \<Rightarrow> elem \<Rightarrow> selector list \<Rightarrow> elem option" where
  "querySelector w r sels = find (matchesAny w sels) (descendants w r)"

definition document_querySelector :: "world \<Rightarrow> selector list \<Rightarrow> elem option" where
  "document_querySelector w sels = find (matchesAny w sels) (elements w)"

text \<open>\<^verbatim>\<open>el.closest(sel)\<close>: the element itself or its nearest ancestor that matches.\<close>

definition closest :: "world \<Rightarrow> elem \<Rightarrow> selector list \<Rightarrow> elem option" where
  "closest w e sels = find (matchesAny w sels) (e # ancestors w e)"

definition getAttribute :: "world \<Rightarrow> elem \<Rightarrow> string \<Rightarrow> string option" where
  "getAttribute w e k = attrs w e k"

definition hasAttribute :: "world \<Rightarrow> elem \<Rightarrow> string \<Rightarrow> bool" where
  "hasAttribute w e k = (attrs w e k \<noteq> None)"

definition setAttribute :: "elem \<Rightarrow> string \<Rightarrow> string \<Rightarrow> world \<Rightarrow> world" where
  "setAttribute e k v w = w\<lparr>attrs := (attrs w)(e := (attrs w e)(k \<mapsto> v))\<rparr>"

definition removeAttribute :: "elem \<Rightarrow> string \<Rightarrow> world \<Rightarrow> world" where
  "removeAttribute e k w = w\<lparr>attrs := (attrs w)(e := (attrs w e)(k := None))\<rparr>"

definition set_textContent :: "elem \<Rightarrow> string \<Rightarrow> world \<Rightarrow> world" where
  "set_textContent e t w = w\<lparr>textContent := (textContent w)(e := t)\<rparr>"

text \<open>
  \<^verbatim>\<open>el.focus()\<close> moves the focus when the element accepts it and does nothing otherwise.
\<close>

definition focus :: "elem \<Rightarrow> world \<Rightarrow> world" where
  "focus e w = (if e \<in> focusables w then w\<lparr>activeElement := Some e\<rparr> else w)"


section \<open>\<^verbatim>\<open>utils.js\<close>\<close>

text \<open>
  \<^verbatim>\<open>liveRegion(message, politeness)\<close>. On its first call it creates the live node with
  \<^verbatim>\<open>aria-live="polite"\<close> and no text. It then sets \<^verbatim>\<open>aria-live\<close> if it differs, clears the
  text, and leaves a timer that writes the message 10 ms later. The pending timers are the
  list \<open>timers\<close>, oldest first; \<open>run_timers\<close> lets them all fire.
\<close>

definition liveRegion :: "string \<Rightarrow> string \<Rightarrow> world \<Rightarrow> world" where
  "liveRegion message politeness w =
     (let node = (case liveNode w of
                    None \<Rightarrow> \<lparr>aria_live = ''polite'', node_text = []\<rparr>
                  | Some n \<Rightarrow> n);
          node1 = (if politeness \<noteq> aria_live node then node\<lparr>aria_live := politeness\<rparr> else node);
          node2 = node1\<lparr>node_text := []\<rparr>
      in w\<lparr>liveNode := Some node2, timers := timers w @ [message]\<rparr>)"

definition run_timer :: "string \<Rightarrow> world \<Rightarrow> world" where
  "run_timer message w =
     (case liveNode w of
        None \<Rightarrow> w
      | Some n \<Rightarrow> w\<lparr>liveNode := Some (n\<lparr>node_text := message\<rparr>)\<rparr>)"

definition run_timers :: "world \<Rightarrow> world" where
  "run_timers w = (fold run_timer (timers w) w)\<lparr>timers := []\<rparr>"

definition nextIndex :: "int \<Rightarrow> int \<Rightarrow> int" where
  "nextIndex i len = js_rem (i + 1) len"

definition prevIndex :: "int \<Rightarrow> int \<Rightarrow> int" where
  "prevIndex i len = js_rem (i - 1 + len) len"

text \<open>
  \<^verbatim>\<open>trapFocus(container, initial)\<close> registers a new \<^verbatim>\<open>handleKeydown\<close> on the document,
  queues the microtask that places the initial focus, and returns the cleanup closure.
  The Tab-wrapping body of \<^verbatim>\<open>handleKeydown\<close> is not modelled: nothing below is about the
  Tab key, only about which handlers are registered.
\<close>

definition trapFocus :: "elem \<Rightarrow> elem option \<Rightarrow> world \<Rightarrow> release \<times> world" where
  "trapFocus container initial w =
     (let h = fresh_handler w in
      (Release h (activeElement w),
       w\<lparr>keydown := keydown w @ [Trap h container],
         microtasks := microtasks w @ [FocusInitial initial container],
         fresh_handler := Suc h\<rparr>))"

text \<open>Calling the cleanup closure: remove that handler, focus \<^verbatim>\<open>prevActive\<close> if there is one.\<close>

definition call_release :: "release \<Rightarrow> world \<Rightarrow> world" where
  "call_release r w =
     (let w1 = w\<lparr>keydown := filter (\<lambda>t. trap_id t \<noteq> rel_handler r) (keydown w)\<rparr> in
      case rel_prevActive r of None \<Rightarrow> w1 | Some e \<Rightarrow> focus e w1)"

text \<open>
  The queued microtask:
  \<^verbatim>\<open>(initial || getTabbables(container)[0] || container).focus?.()\<close>.
\<close>

definition run_microtask :: "microtask \<Rightarrow> world \<Rightarrow> world" where
  "run_microtask m w =
     (case mt_initial m of
        Some e \<Rightarrow> focus e w
      | None \<Rightarrow> (case tabbables w (mt_container m) of
                   t # _ \<Rightarrow> focus t w
                 | [] \<Rightarrow> focus (mt_container m) w))"

definition run_microtasks :: "world \<Rightarrow> world" where
  "run_microtasks w = (fold run_microtask (microtasks w) w)\<lparr>microtasks := []\<rparr>"

section \<open>\<^verbatim>\<open>a11y.js\<close>\<close>

definition rememberFocus :: "world \<Rightarrow> world" where
  "rememberFocus w =
     w\<lparr>lastFocused := (case activeElement w of
                         None \<Rightarrow> None
                       | Some e \<Rightarrow> if e \<in> htmlElements w then Some e else None)\<rparr>"

definition restoreFocus :: "world \<Rightarrow> world" where
  "restoreFocus w = (case lastFocused w of None \<Rightarrow> w | Some e \<Rightarrow> focus e w)"

definition announce :: "string \<Rightarrow> string \<Rightarrow> world \<Rightarrow> world" where
  "announce message politeness w = liveRegion message politeness w"

section \<open>\<^verbatim>\<open>lightbox.js\<close>\<close>

definition hydrateItems :: "world \<Rightarrow> world" where
  "hydrateItems w =
     w\<lparr>items := (case document_querySelector w [HasAttr ''data-gallery-grid''] of
                   None \<Rightarrow> []
                 | Some grid \<Rightarrow> qsa w grid [HasAttr ''data-gallery-item'', Class ''gallery__item''])\<rparr>"

definition setAriaHiddenForBackground :: "bool \<Rightarrow> world \<Rightarrow> world" where
  "setAriaHiddenForBackground hidden w =
     (case document_querySelector w [Tag ''main''] of
        None \<Rightarrow> w
      | Some m \<Rightarrow> setAttribute m ''aria-hidden'' (if hidden then ''true'' else ''false'') w)"

text \<open>
  The image source that \<^verbatim>\<open>updateUI\<close> resolves for a card:
  \<^verbatim>\<open>card.getAttribute('data-full') || imgEl?.getAttribute('data-full') ||
   imgEl?.getAttribute('src') || card.querySelector('a')?.getAttribute('href')\<close>.
\<close>

definition resolve_src :: "world \<Rightarrow> elem \<Rightarrow> string option" where
  "resolve_src w crd =
     (let imgEl = querySelector w crd [Tag ''img''] in
      js_or (js_or (js_or (getAttribute w crd ''data-full'')
                          (Option.bind imgEl (\<lambda>i. getAttribute w i ''data-full'')))
                   (Option.bind imgEl (\<lambda>i. getAttribute w i ''src'')))
            (Option.bind (querySelector w crd [Tag ''a'']) (\<lambda>a. getAttribute w a ''href'')))"

text \<open>
  The caption:
  \<^verbatim>\<open>card.getAttribute('data-caption') || card.querySelector('.card__caption')?.textContent || ''\<close>.
\<close>

definition resolve_caption :: "world \<Rightarrow> elem \<Rightarrow> string" where
  "resolve_caption w crd =
     or_empty (js_or (getAttribute w crd ''data-caption'')
                     (map_option (textContent w) (querySelector w crd [Class ''card__caption''])))"

definition updateUI :: "world \<Rightarrow> world" where
  "updateUI w =
     (case at_index (items w) (index w) of
        None \<Rightarrow> w
      | Some crd \<Rightarrow>
          let imgEl = querySelector w crd [Tag ''img''];
              src = resolve_src w crd;
              alt = or_empty (Option.bind imgEl (\<lambda>i. getAttribute w i ''alt''));
              text = resolve_caption w crd;
              w1 = (case img (refs w) of
                      None \<Rightarrow> w
                    | Some e \<Rightarrow> if truthy src
                                then setAttribute e ''alt'' alt (setAttribute e ''src'' (or_empty src) w)
                                else w);
              w2 = (case caption (refs w) of
                      None \<Rightarrow> w1
                    | Some e \<Rightarrow> set_textContent e text w1);
              w3 = (case counter (refs w) of
                      None \<Rightarrow> w2
                    | Some e \<Rightarrow> set_textContent e
                        (js_String (index w + 1) @ '' / '' @ js_String (int (length (items w)))) w2)
          in announce (''Image '' @ js_String (index w + 1) @ '' of ''
                       @ js_String (int (length (items w)))
                       @ (if text \<noteq> [] then '', '' @ text else []))
               ''polite'' w3)"

text \<open>
  The source that \<^verbatim>\<open>preloadNeighbors\<close> resolves for a neighbour:
  \<^verbatim>\<open>card?.getAttribute('data-full') || card?.querySelector('img')?.getAttribute('data-full')
   || card?.querySelector('a')?.getAttribute('href')\<close>.
\<close>

definition preloadSrc :: "world \<Rightarrow> elem option \<Rightarrow> string option" where
  "preloadSrc w crd =
     js_or (js_or (Option.bind crd (\<lambda>c. getAttribute w c ''data-full''))
                  (Option.bind (Option.bind crd (\<lambda>c. querySelector w c [Tag ''img'']))
                               (\<lambda>i. getAttribute w i ''data-full'')))
           (Option.bind (Option.bind crd (\<lambda>c. querySelector w c [Tag ''a'']))
                        (\<lambda>a. getAttribute w a ''href''))"

definition preload :: "elem option \<Rightarrow> world \<Rightarrow> world" where
  "preload crd w =
     (let s = preloadSrc w crd in
      if truthy s then w\<lparr>preloaded := preloaded w @ [or_empty s]\<rparr> else w)"

definition preloadNeighbors :: "world \<Rightarrow> world" where
  "preloadNeighbors w =
     (if items w = [] then w
      else let len = int (length (items w));
               nxt = at_index (items w) (nextIndex (index w) len);
               prv = at_index (items w) (prevIndex (index w) len)
           in fold preload [nxt, prv] w)"

text \<open>
  \<^verbatim>\<open>open(index)\<close>. The index is stored as it is given. The names \<open>open\<close> and \<open>next\<close> are
  taken in Isabelle, so the four operations of \<^verbatim>\<open>LightboxAPI\<close> carry the suffix \<open>_lb\<close>.
\<close>

definition open_lb :: "int \<Rightarrow> world \<Rightarrow> world" where
  "open_lb i w =
     (case root (refs w) of
        None \<Rightarrow> w
      | Some r \<Rightarrow>
          let wh = (if items w = [] then hydrateItems w else w) in
          if items wh = [] then wh
          else
            let w1 = rememberFocus wh;
                w2 = w1\<lparr>index := i\<rparr>;
                w3 = removeAttribute r ''hidden'' w2;
                w4 = setAttribute r ''data-open'' ''true'' w3;
                w5 = setAttribute r ''aria-modal'' ''true'' w4;
                w6 = (case dialog (refs w5) of
                        None \<Rightarrow> w5
                      | Some d \<Rightarrow> setAttribute d ''role'' ''dialog'' w5);
                w7 = updateUI w6;
                w8 = preloadNeighbors w7;
                w9 = setAriaHiddenForBackground True w8;
                container = (case dialog (refs w9) of None \<Rightarrow> r | Some d \<Rightarrow> d);
                initial = (case closeBtn (refs w9) of None \<Rightarrow> dialog (refs w9) | Some b \<Rightarrow> Some b);
                (rel, w10) = trapFocus container initial w9;
                w11 = w10\<lparr>releaseFocusFn := Some rel\<rparr>
            in announce ''Image viewer opened'' ''polite'' w11)"

definition close_lb :: "world \<Rightarrow> world" where
  "close_lb w =
     (case root (refs w) of
        None \<Rightarrow> w
      | Some r \<Rightarrow>
          let w1 = setAttribute r ''hidden'' [] w;
              w2 = removeAttribute r ''data-open'' w1;
              w3 = removeAttribute r ''aria-modal'' w2;
              w4 = setAriaHiddenForBackground False w3;
              w5 = (case releaseFocusFn w4 of None \<Rightarrow> w4 | Some rel \<Rightarrow> call_release rel w4);
              w6 = w5\<lparr>releaseFocusFn := None\<rparr>;
              w7 = restoreFocus w6
          in announce ''Image viewer closed'' ''polite'' w7)"

definition next_lb :: "world \<Rightarrow> world" where
  "next_lb w =
     (if items w = [] then w
      else preloadNeighbors
             (updateUI (w\<lparr>index := nextIndex (index w) (int (length (items w)))\<rparr>)))"

definition prev_lb :: "world \<Rightarrow> world" where
  "prev_lb w =
     (if items w = [] then w
      else preloadNeighbors
             (updateUI (w\<lparr>index := prevIndex (index w) (int (length (items w)))\<rparr>)))"

text \<open>
  The handlers that \<^verbatim>\<open>initLightbox\<close> binds. \<^verbatim>\<open>preventDefault\<close> has no effect on the state
  modelled here. \<open>onOpenRequested\<close> is the listener for \<^verbatim>\<open>lightbox:open\<close>, which calls
  \<^verbatim>\<open>open(detail.index || 0)\<close>; its argument is \<open>None\<close> when the event carries no index.
\<close>

definition onKeydown :: "string \<Rightarrow> world \<Rightarrow> world" where
  "onKeydown key w =
     (case root (refs w) of
        None \<Rightarrow> w
      | Some r \<Rightarrow>
          if \<not> hasAttribute w r ''data-open'' then w
          else if key = ''Escape'' then close_lb w
          else if key = ''ArrowRight'' then next_lb w
          else if key = ''ArrowLeft'' then prev_lb w
          else w)"

definition onBackdropClick :: "elem \<Rightarrow> world \<Rightarrow> world" where
  "onBackdropClick target w =
     (if Some target = root (refs w) \<or> Some target = backdrop (refs w) then close_lb w else w)"

definition onOpenRequested :: "int option \<Rightarrow> world \<Rightarrow> world" where
  "onOpenRequested detail_index w =
     open_lb (case detail_index of None \<Rightarrow> 0 | Some i \<Rightarrow> i) w"

text \<open>
  A click inside the lightbox. \<^verbatim>\<open>initLightbox\<close> binds click listeners on the close,
  previous and next controls and on the root, each only when the root was found. A click
  bubbles from its target through the ancestors; \<open>click_listeners e target\<close> runs the
  listeners bound on \<open>e\<close>, in the order in which they were bound, and \<open>click\<close> runs them
  along the path. The gallery's delegated listener sits on the grid and is \<open>gallery_onClick\<close>
  below.
\<close>

definition click_listeners :: "elem \<Rightarrow> elem \<Rightarrow> world \<Rightarrow> world" where
  "click_listeners e target w =
     (case root (refs w) of
        None \<Rightarrow> w
      | Some r \<Rightarrow>
          let w1 = (if closeBtn (refs w) = Some e then close_lb w else w);
              w2 = (if prevBtn (refs w1) = Some e then prev_lb w1 else w1);
              w3 = (if nextBtn (refs w2) = Some e then next_lb w2 else w2)
          in if e = r then onBackdropClick target w3 else w3)"

definition click :: "elem \<Rightarrow> world \<Rightarrow> world" where
  "click target w = fold (\<lambda>e. click_listeners e target) (target # ancestors w target) w"

section \<open>\<^verbatim>\<open>gallery.js\<close>\<close>

definition gallery_initRefs :: "world \<Rightarrow> world" where
  "gallery_initRefs w = w\<lparr>gallery_grid := document_querySelector w [HasAttr ''data-gallery-grid'']\<rparr>"

definition gallery_hydrateItems :: "world \<Rightarrow> world" where
  "gallery_hydrateItems w =
     (case gallery_grid w of
        None \<Rightarrow> w
      | Some g \<Rightarrow> w\<lparr>gallery_items := qsa w g [HasAttr ''data-gallery-item'']\<rparr>)"

text \<open>
  The index that the handlers of \<^verbatim>\<open>initLightboxBindings\<close> put into the \<^verbatim>\<open>lightbox:open\<close>
  event for a card: \<^verbatim>\<open>state.items.indexOf(card)\<close>, and no event when that is \<open>-1\<close>.
\<close>

definition emitted_index :: "world \<Rightarrow> elem \<Rightarrow> int option" where
  "emitted_index w crd = map_option int (indexOf (gallery_items w) crd)"

text \<open>
  The click handler: \<^verbatim>\<open>target\<close> is the element the delegation matched. The event is
  dispatched synchronously and bubbles to the document, where the lightbox listens.
\<close>

definition gallery_onClick :: "elem \<Rightarrow> world \<Rightarrow> world" where
  "gallery_onClick target w =
     (case closest w target [HasAttr ''data-gallery-item''] of
        None \<Rightarrow> w
      | Some crd \<Rightarrow> (case emitted_index w crd of
                      None \<Rightarrow> w
                    | Some i \<Rightarrow> onOpenRequested (Some i) w))"

section \<open>What the specification says, as predicates and functions\<close>

text \<open>
  The index invariant of the lightbox state: with a non-empty snapshot the index is a
  position of the snapshot.
\<close>

definition index_ok :: "world \<Rightarrow> bool" where
  "index_ok w = (items w \<noteq> [] \<longrightarrow> 0 \<le> index w \<and> index w < int (length (items w)))"

text \<open>
  Open is read off the root, as \<^verbatim>\<open>onKeydown\<close> does:
  \<^verbatim>\<open>refs.root?.hasAttribute('data-open')\<close>.
\<close>

definition is_open :: "world \<Rightarrow> bool" where
  "is_open w = (case root (refs w) of None \<Rightarrow> False | Some r \<Rightarrow> hasAttribute w r ''data-open'')"


text \<open>
  The announcement as the specification words it: \<open>Image {i+1} of {n}\<close> for an item
  without caption, \<open>Image {i+1} of {n}, {caption}\<close> for an item with one. The rendering
  function \<open>updateUI\<close> above is compared with it.
\<close>

definition announcement :: "int \<Rightarrow> nat \<Rightarrow> string \<Rightarrow> string" where
  "announcement i n text =
     (if text = [] then ''Image '' @ js_String (i + 1) @ '' of '' @ js_String (int n)
      else ''Image '' @ js_String (i + 1) @ '' of '' @ js_String (int n) @ '', '' @ text)"

section \<open>A sample page\<close>

text \<open>
  A page with the recommended markup, used for the concrete instances below. Element 1
  is \<^verbatim>\<open>main\<close>, 2 the gallery grid, 3, 5 and 8 the cards: card 3 has \<^verbatim>\<open>data-full\<close> and
  \<^verbatim>\<open>data-caption\<close> and an image 4; card 5 has a thumbnail 6 and a link 7 to the full image,
  and no caption; card 8 has an image 9 with \<^verbatim>\<open>data-full\<close>. Element 10 is the lightbox root
  with backdrop 11 and dialog 12, which holds the close button 13, the image 14, the
  caption 15, the counter 16 and the previous and next buttons 17 and 18. The link 7 has
  the focus.
\<close>

definition page :: world where
  "page =
     \<lparr>elements = [1, 2, 3, 4, 5, 6, 7, 8, 9, 10, 11, 12, 13, 14, 15, 16, 17, 18],
      descendants = (\<lambda>e. if e = 1 then [2, 3, 4, 5, 6, 7, 8, 9]
                          else if e = 2 then [3, 4, 5, 6, 7, 8, 9]
                          else if e = 3 then [4]
                          else if e = 5 then [6, 7]
                          else if e = 8 then [9]
                          else if e = 10 then [11, 12, 13, 14, 15, 16, 17, 18]
                          else if e = 12 then [13, 14, 15, 16, 17, 18]
                          else []),
      ancestors = (\<lambda>e. if e = 2 then [1]
                        else if e \<in> {3, 5, 8} then [2, 1]
                        else if e = 4 then [3, 2, 1]
                        else if e \<in> {6, 7} then [5, 2, 1]
                        else if e = 9 then [8, 2, 1]
                        else if e \<in> {11, 12} then [10]
                        else if e \<in> {13, 14, 15, 16, 17, 18} then [12, 10]
                        else []),
      localName = (\<lambda>e. if e = 1 then ''main''
                        else if e \<in> {4, 6, 9, 14} then ''img''
                        else if e = 7 then ''a''
                        else if e \<in> {13, 17, 18} then ''button''
                        else ''div''),
      classList = (\<lambda>e. if e = 11 then [''lightbox__backdrop''] else []),
      attrs = (\<lambda>e. if e = 2 then [''data-gallery-grid'' \<mapsto> []]
                    else if e = 3 then [''data-gallery-item'' \<mapsto> [], ''data-full'' \<mapsto> ''a-full.jpg'',
                                        ''data-caption'' \<mapsto> ''Sunset'']
                    else if e = 4 then [''src'' \<mapsto> ''a-thumb.jpg'', ''data-full'' \<mapsto> ''a-large.jpg'',
                                        ''alt'' \<mapsto> ''Sunset'']
                    else if e = 5 then [''data-gallery-item'' \<mapsto> []]
                    else if e = 6 then [''src'' \<mapsto> ''b-thumb.jpg'']
                    else if e = 7 then [''href'' \<mapsto> ''b-full.jpg'']
                    else if e = 8 then [''data-gallery-item'' \<mapsto> []]
                    else if e = 9 then [''src'' \<mapsto> ''c-thumb.jpg'', ''data-full'' \<mapsto> ''c-full.jpg'']
                    else if e = 10 then [''data-lightbox-root'' \<mapsto> [], ''hidden'' \<mapsto> []]
                    else Map.empty),
      textContent = (\<lambda>e. []),
      activeElement = Some 7,
      focusables = {7, 13, 17, 18},
      htmlElements = {1, 2, 3, 4, 5, 6, 7, 8, 9, 10, 11, 12, 13, 14, 15, 16, 17, 18},
      tabbables = (\<lambda>e. if e = 12 then [13, 17, 18] else []),
      keydown = [],
      microtasks = [],
      timers = [],
      preloaded = [],
      fresh_handler = 0,
      lastFocused = None,
      liveNode = None,
      refs = \<lparr>root = Some 10, dialog = Some 12, closeBtn = Some 13, img = Some 14,
               caption = Some 15, counter = Some 16, prevBtn = Some 17, nextBtn = Some 18,
               backdrop = Some 11\<rparr>,
      items = [],
      index = 0,
      releaseFocusFn = None,
      gallery_grid = None,
      gallery_items = []\<rparr>"

text \<open>The page once the lightbox has hydrated its snapshot, at index \<open>i\<close>.\<close>

definition viewing :: "int \<Rightarrow> world" where
  "viewing i = page\<lparr>items := [3, 5, 8], index := i\<rparr>"

text \<open>
  The same page with card 3 in the legacy markup that the lightbox accepts: the class
  \<^verbatim>\<open>gallery__item\<close> and no \<^verbatim>\<open>data-gallery-item\<close> attribute.
\<close>

definition legacy_page :: world where
  "legacy_page =
     page\<lparr>classList := (classList page)(3 := [''gallery__item'']),
          attrs := (attrs page)(3 := [''data-full'' \<mapsto> ''a-full.jpg'', ''data-caption'' \<mapsto> ''Sunset''])\<rparr>"

text \<open>A page without a gallery grid: only \<^verbatim>\<open>main\<close> and the lightbox markup.\<close>

definition bare_page :: world where
  "bare_page = page\<lparr>elements := [1, 10, 11, 12, 13, 14, 15, 16, 17, 18]\<rparr>"

section \<open>What the announcer and the rendering leave alone\<close>

lemma liveRegion_frame [simp]:
  "items (liveRegion m p w) = items w"
  "index (liveRegion m p w) = index w"
  "refs (liveRegion m p w) = refs w"
  "attrs (liveRegion m p w) = attrs w"
  "elements (liveRegion m p w) = elements w"
  "localName (liveRegion m p w) = localName w"
  "classList (liveRegion m p w) = classList w"
  "releaseFocusFn (liveRegion m p w) = releaseFocusFn w"
  "keydown (liveRegion m p w) = keydown w"
  "fresh_handler (liveRegion m p w) = fresh_handler w"
  "activeElement (liveRegion m p w) = activeElement w"
  "lastFocused (liveRegion m p w) = lastFocused w"
  "focusables (liveRegion m p w) = focusables w"
  "microtasks (liveRegion m p w) = microtasks w"
  by (simp_all add: liveRegion_def Let_def)

lemma updateUI_frame [simp]:
  "items (updateUI w) = items w"
  "index (updateUI w) = index w"
  "refs (updateUI w) = refs w"
  "elements (updateUI w) = elements w"
  "localName (updateUI w) = localName w"
  "classList (updateUI w) = classList w"
  "releaseFocusFn (updateUI w) = releaseFocusFn w"
  "keydown (updateUI w) = keydown w"
  "fresh_handler (updateUI w) = fresh_handler w"
  "activeElement (updateUI w) = activeElement w"
  "lastFocused (updateUI w) = lastFocused w"
  "focusables (updateUI w) = focusables w"
  "microtasks (updateUI w) = microtasks w"
  by (simp_all add: updateUI_def announce_def Let_def setAttribute_def set_textContent_def split: option.splits)

lemma preloadNeighbors_frame [simp]:
  "items (preloadNeighbors w) = items w"
  "index (preloadNeighbors w) = index w"
  "refs (preloadNeighbors w) = refs w"
  "attrs (preloadNeighbors w) = attrs w"
  "elements (preloadNeighbors w) = elements w"
  "localName (preloadNeighbors w) = localName w"
  "classList (preloadNeighbors w) = classList w"
  "releaseFocusFn (preloadNeighbors w) = releaseFocusFn w"
  "keydown (preloadNeighbors w) = keydown w"
  "fresh_handler (preloadNeighbors w) = fresh_handler w"
  "activeElement (preloadNeighbors w) = activeElement w"
  "lastFocused (preloadNeighbors w) = lastFocused w"
  "focusables (preloadNeighbors w) = focusables w"
  "microtasks (preloadNeighbors w) = microtasks w"
  "timers (preloadNeighbors w) = timers w"
  "liveNode (preloadNeighbors w) = liveNode w"
  by (simp_all add: preloadNeighbors_def preload_def Let_def)

section \<open>Navigation\<close>

lemma js_rem_nonneg: "0 \<le> a \<Longrightarrow> 0 < b \<Longrightarrow> js_rem a b = a mod b"
  by (simp add: js_rem_def)

lemma next_lb_items [simp]: "items (next_lb w) = items w"
  by (simp add: next_lb_def)

lemma prev_lb_items [simp]: "items (prev_lb w) = items w"
  by (simp add: prev_lb_def)

lemma next_lb_index:
  "items w \<noteq> [] \<Longrightarrow> index (next_lb w) = nextIndex (index w) (int (length (items w)))"
  by (simp add: next_lb_def)

lemma prev_lb_index:
  "items w \<noteq> [] \<Longrightarrow> index (prev_lb w) = prevIndex (index w) (int (length (items w)))"
  by (simp add: prev_lb_def)

lemma nextIndex_mod: "0 \<le> i \<Longrightarrow> 0 < n \<Longrightarrow> nextIndex i n = (i + 1) mod n"
  by (simp add: nextIndex_def js_rem_nonneg)

lemma prevIndex_mod: "0 \<le> i \<Longrightarrow> 0 < n \<Longrightarrow> prevIndex i n = (i - 1) mod n"
proof -
  assume a: "0 \<le> i" "0 < n"
  then have "0 \<le> i - 1 + n" by simp
  with a have "prevIndex i n = (i - 1 + n) mod n" by (simp add: prevIndex_def js_rem_nonneg)
  then show ?thesis by simp
qed

lemma next_funpow:
  assumes "items w \<noteq> []" "0 \<le> index w"
  shows "items ((next_lb ^^ k) w) = items w \<and>
         index ((next_lb ^^ k) w) = (if k = 0 then index w else (index w + int k) mod int (length (items w)))"
proof (induction k)
  case 0
  show ?case by simp
next
  case (Suc k)
  let ?n = "int (length (items w))"
  let ?v = "(next_lb ^^ k) w"
  have n: "0 < ?n" using assms by simp
  have it: "items ?v = items w" using Suc by simp
  have nonneg: "0 \<le> index ?v" using Suc assms n by (simp split: if_splits)
  have "index (next_lb ?v) = (index ?v + 1) mod ?n"
    using it assms n nonneg by (simp add: next_lb_index nextIndex_mod)
  also have "\<dots> = (index w + int k + 1) mod ?n"
    using Suc by (cases "k = 0") (simp_all add: mod_add_left_eq)
  also have "\<dots> = (index w + int (Suc k)) mod ?n"
    by (simp add: ac_simps)
  finally show ?case using it by simp
qed

lemma prev_funpow:
  assumes "items w \<noteq> []" "0 \<le> index w"
  shows "items ((prev_lb ^^ k) w) = items w \<and>
         index ((prev_lb ^^ k) w) = (if k = 0 then index w else (index w - int k) mod int (length (items w)))"
proof (induction k)
  case 0
  show ?case by simp
next
  case (Suc k)
  let ?n = "int (length (items w))"
  let ?v = "(prev_lb ^^ k) w"
  have n: "0 < ?n" using assms by simp
  have it: "items ?v = items w" using Suc by simp
  have nonneg: "0 \<le> index ?v" using Suc assms n by (simp split: if_splits)
  have "index (prev_lb ?v) = (index ?v - 1) mod ?n"
    using it assms n nonneg by (simp add: prev_lb_index prevIndex_mod)
  also have "\<dots> = (index w - int k - 1) mod ?n"
    using Suc by (cases "k = 0") (simp_all add: mod_diff_left_eq)
  also have "\<dots> = (index w - int (Suc k)) mod ?n"
    by (simp add: algebra_simps)
  finally show ?case using it by simp
qed

section \<open>What the DOM primitives and \<^verbatim>\<open>close\<close> leave alone\<close>

lemma setAttribute_frame [simp]:
  "items (setAttribute e k v w) = items w"
  "index (setAttribute e k v w) = index w"
  "refs (setAttribute e k v w) = refs w"
  "elements (setAttribute e k v w) = elements w"
  "localName (setAttribute e k v w) = localName w"
  "classList (setAttribute e k v w) = classList w"
  "releaseFocusFn (setAttribute e k v w) = releaseFocusFn w"
  "keydown (setAttribute e k v w) = keydown w"
  "fresh_handler (setAttribute e k v w) = fresh_handler w"
  "activeElement (setAttribute e k v w) = activeElement w"
  "lastFocused (setAttribute e k v w) = lastFocused w"
  "focusables (setAttribute e k v w) = focusables w"
  "microtasks (setAttribute e k v w) = microtasks w"
  "timers (setAttribute e k v w) = timers w"
  "liveNode (setAttribute e k v w) = liveNode w"
  by (simp_all add: setAttribute_def)

lemma removeAttribute_frame [simp]:
  "items (removeAttribute e k w) = items w"
  "index (removeAttribute e k w) = index w"
  "refs (removeAttribute e k w) = refs w"
  "elements (removeAttribute e k w) = elements w"
  "localName (removeAttribute e k w) = localName w"
  "classList (removeAttribute e k w) = classList w"
  "releaseFocusFn (removeAttribute e k w) = releaseFocusFn w"
  "keydown (removeAttribute e k w) = keydown w"
  "fresh_handler (removeAttribute e k w) = fresh_handler w"
  "activeElement (removeAttribute e k w) = activeElement w"
  "lastFocused (removeAttribute e k w) = lastFocused w"
  "focusables (removeAttribute e k w) = focusables w"
  "microtasks (removeAttribute e k w) = microtasks w"
  "timers (removeAttribute e k w) = timers w"
  "liveNode (removeAttribute e k w) = liveNode w"
  by (simp_all add: removeAttribute_def)

lemma focus_frame [simp]:
  "items (focus e w) = items w"
  "index (focus e w) = index w"
  "refs (focus e w) = refs w"
  "attrs (focus e w) = attrs w"
  "elements (focus e w) = elements w"
  "localName (focus e w) = localName w"
  "classList (focus e w) = classList w"
  "releaseFocusFn (focus e w) = releaseFocusFn w"
  "keydown (focus e w) = keydown w"
  "fresh_handler (focus e w) = fresh_handler w"
  "lastFocused (focus e w) = lastFocused w"
  "focusables (focus e w) = focusables w"
  "microtasks (focus e w) = microtasks w"
  "timers (focus e w) = timers w"
  "liveNode (focus e w) = liveNode w"
  by (simp_all add: focus_def)

lemma setAriaHiddenForBackground_frame [simp]:
  "items (setAriaHiddenForBackground b w) = items w"
  "index (setAriaHiddenForBackground b w) = index w"
  "refs (setAriaHiddenForBackground b w) = refs w"
  "elements (setAriaHiddenForBackground b w) = elements w"
  "localName (setAriaHiddenForBackground b w) = localName w"
  "classList (setAriaHiddenForBackground b w) = classList w"
  "releaseFocusFn (setAriaHiddenForBackground b w) = releaseFocusFn w"
  "keydown (setAriaHiddenForBackground b w) = keydown w"
  "fresh_handler (setAriaHiddenForBackground b w) = fresh_handler w"
  "activeElement (setAriaHiddenForBackground b w) = activeElement w"
  "lastFocused (setAriaHiddenForBackground b w) = lastFocused w"
  "focusables (setAriaHiddenForBackground b w) = focusables w"
  "microtasks (setAriaHiddenForBackground b w) = microtasks w"
  "timers (setAriaHiddenForBackground b w) = timers w"
  "liveNode (setAriaHiddenForBackground b w) = liveNode w"
  by (simp_all add: setAriaHiddenForBackground_def split: option.splits)

lemma call_release_frame [simp]:
  "items (call_release r w) = items w"
  "index (call_release r w) = index w"
  "refs (call_release r w) = refs w"
  "attrs (call_release r w) = attrs w"
  "elements (call_release r w) = elements w"
  "localName (call_release r w) = localName w"
  "classList (call_release r w) = classList w"
  "releaseFocusFn (call_release r w) = releaseFocusFn w"
  "fresh_handler (call_release r w) = fresh_handler w"
  "lastFocused (call_release r w) = lastFocused w"
  "focusables (call_release r w) = focusables w"
  "microtasks (call_release r w) = microtasks w"
  "timers (call_release r w) = timers w"
  "liveNode (call_release r w) = liveNode w"
  by (simp_all add: call_release_def Let_def split: option.splits)

lemma restoreFocus_frame [simp]:
  "items (restoreFocus w) = items w"
  "index (restoreFocus w) = index w"
  "refs (restoreFocus w) = refs w"
  "attrs (restoreFocus w) = attrs w"
  "elements (restoreFocus w) = elements w"
  "localName (restoreFocus w) = localName w"
  "classList (restoreFocus w) = classList w"
  "releaseFocusFn (restoreFocus w) = releaseFocusFn w"
  "keydown (restoreFocus w) = keydown w"
  "fresh_handler (restoreFocus w) = fresh_handler w"
  "lastFocused (restoreFocus w) = lastFocused w"
  "focusables (restoreFocus w) = focusables w"
  "microtasks (restoreFocus w) = microtasks w"
  "timers (restoreFocus w) = timers w"
  "liveNode (restoreFocus w) = liveNode w"
  by (simp_all add: restoreFocus_def split: option.splits)

lemma close_lb_frame [simp]:
  "items (close_lb w) = items w"
  "index (close_lb w) = index w"
  "refs (close_lb w) = refs w"
  "elements (close_lb w) = elements w"
  "localName (close_lb w) = localName w"
  "classList (close_lb w) = classList w"
  "fresh_handler (close_lb w) = fresh_handler w"
  "lastFocused (close_lb w) = lastFocused w"
  "focusables (close_lb w) = focusables w"
  "microtasks (close_lb w) = microtasks w"
  by (simp_all add: close_lb_def announce_def Let_def split: option.splits)

section \<open>The snapshot and the index after \<^verbatim>\<open>open\<close>\<close>

lemma open_lb_items:
  "items (open_lb i w) =
     (if root (refs w) \<noteq> None \<and> items w = [] then items (hydrateItems w) else items w)"
  by (simp add: open_lb_def announce_def trapFocus_def rememberFocus_def hydrateItems_def Let_def
           split: option.splits)

lemma open_lb_index:
  "index (open_lb i w) = (if root (refs w) \<noteq> None \<and> items (open_lb i w) \<noteq> [] then i else index w)"
  by (simp add: open_lb_def announce_def trapFocus_def rememberFocus_def hydrateItems_def Let_def
           split: option.splits)

section \<open>The state after \<^verbatim>\<open>close\<close>\<close>



lemma focus_same: "activeElement w = Some e \<Longrightarrow> focus e w = w"
  by (simp add: focus_def)

lemma main_frame [simp]:
  "document_querySelector (setAttribute e k v w) [Tag t] = document_querySelector w [Tag t]"
  "document_querySelector (removeAttribute e k w) [Tag t] = document_querySelector w [Tag t]"
  "document_querySelector (focus e w) [Tag t] = document_querySelector w [Tag t]"
  "document_querySelector (call_release r w) [Tag t] = document_querySelector w [Tag t]"
  "document_querySelector (restoreFocus w) [Tag t] = document_querySelector w [Tag t]"
  "document_querySelector (liveRegion m p w) [Tag t] = document_querySelector w [Tag t]"
  "document_querySelector (setAriaHiddenForBackground b w) [Tag t] = document_querySelector w [Tag t]"
  "document_querySelector (close_lb w) [Tag t] = document_querySelector w [Tag t]"
  by (simp_all add: document_querySelector_def matchesAny_def cong: find_cong)

lemma attrs_setAttribute [simp]:
  "attrs (setAttribute e k v w) = (attrs w)(e := (attrs w e)(k \<mapsto> v))"
  by (simp add: setAttribute_def)

lemma attrs_removeAttribute [simp]:
  "attrs (removeAttribute e k w) = (attrs w)(e := (attrs w e)(k := None))"
  by (simp add: removeAttribute_def)

lemma attrs_setAriaHiddenForBackground:
  "attrs (setAriaHiddenForBackground b w) =
     (case document_querySelector w [Tag ''main''] of
        None \<Rightarrow> attrs w
      | Some m \<Rightarrow> (attrs w)(m := (attrs w m)(''aria-hidden'' \<mapsto> (if b then ''true'' else ''false''))))"
  by (simp add: setAriaHiddenForBackground_def split: option.splits)

lemma attrs_close_lb:
  "root (refs w) = Some r \<Longrightarrow>
   attrs (close_lb w) =
     attrs (setAriaHiddenForBackground False
             (removeAttribute r ''aria-modal''
               (removeAttribute r ''data-open'' (setAttribute r ''hidden'' [] w))))"
  by (simp add: close_lb_def announce_def Let_def split: option.splits)

lemma close_lb_markers:
  assumes "root (refs w) = Some r"
  shows "attrs (close_lb w) r ''hidden'' = Some []"
    and "attrs (close_lb w) r ''data-open'' = None"
    and "attrs (close_lb w) r ''aria-modal'' = None"
  using assms
  by (simp_all add: attrs_close_lb attrs_setAriaHiddenForBackground split: option.splits)


lemma close_lb_release: "root (refs w) = Some r \<Longrightarrow> releaseFocusFn (close_lb w) = None"
  by (simp add: close_lb_def announce_def Let_def)

lemma close_lb_keydown:
  "keydown (close_lb w) =
     (case root (refs w) of
        None \<Rightarrow> keydown w
      | Some r \<Rightarrow> (case releaseFocusFn w of
                     None \<Rightarrow> keydown w
                   | Some rel \<Rightarrow> filter (\<lambda>t. trap_id t \<noteq> rel_handler rel) (keydown w)))"
  by (simp add: close_lb_def announce_def call_release_def Let_def split: option.splits)


lemma restoreFocus_idem: "restoreFocus (restoreFocus w) = restoreFocus w"
  by (simp add: restoreFocus_def focus_def split: option.splits)




lemma liveRegion_liveNode:
  "liveNode (liveRegion m p w) =
     Some \<lparr>aria_live = p, node_text = []\<rparr>"
  by (simp add: liveRegion_def Let_def split: option.splits)

lemma liveRegion_timers: "timers (liveRegion m p w) = timers w @ [m]"
  by (simp add: liveRegion_def Let_def)




lemma close_lb_no_root: "root (refs w) = None \<Longrightarrow> close_lb w = w"
  by (simp add: close_lb_def)



section \<open>The index invariant\<close>

lemma hydrate_page: "items (hydrateItems page) = [3, 5, 8]"
  by (simp add: hydrateItems_def page_def document_querySelector_def qsa_def matchesAny_def)

lemma next_lb_index_ok: "index_ok w \<Longrightarrow> index_ok (next_lb w)"
proof (cases "items w = []")
  case True
  then show ?thesis by (simp add: index_ok_def)
next
  case False
  assume "index_ok w"
  with False have i: "0 \<le> index w" "index w < int (length (items w))" by (simp_all add: index_ok_def)
  then have "index (next_lb w) = (index w + 1) mod int (length (items w))"
    using False by (simp add: next_lb_index nextIndex_mod)
  then show ?thesis using False i by (simp add: index_ok_def)
qed

lemma prev_lb_index_ok: "index_ok w \<Longrightarrow> index_ok (prev_lb w)"
proof (cases "items w = []")
  case True
  then show ?thesis by (simp add: index_ok_def)
next
  case False
  assume "index_ok w"
  with False have i: "0 \<le> index w" "index w < int (length (items w))" by (simp_all add: index_ok_def)
  then have "index (prev_lb w) = (index w - 1) mod int (length (items w))"
    using False by (simp add: prev_lb_index prevIndex_mod)
  then show ?thesis using False i by (simp add: index_ok_def)
qed

lemma close_lb_index_ok: "index_ok (close_lb w) = index_ok w"
  by (simp add: index_ok_def)

lemma onKeydown_index_ok: "index_ok w \<Longrightarrow> index_ok (onKeydown k w)"
  by (simp add: onKeydown_def next_lb_index_ok prev_lb_index_ok close_lb_index_ok split: option.splits)

lemma onBackdropClick_index_ok: "index_ok w \<Longrightarrow> index_ok (onBackdropClick t w)"
  by (simp add: onBackdropClick_def close_lb_index_ok)

lemma close_lb_not_open: "\<not> is_open (close_lb w)"
proof (cases "root (refs w)")
  case None
  then show ?thesis by (simp add: is_open_def)
next
  case (Some r)
  then show ?thesis using close_lb_markers(2) [OF Some] by (simp add: is_open_def hasAttribute_def)
qed

section \<open>Focus and traps\<close>

lemma open_lb_refs [simp]: "refs (open_lb i w) = refs w"
  by (simp add: open_lb_def announce_def trapFocus_def rememberFocus_def hydrateItems_def Let_def
        split: option.splits)

lemma open_lb_focusables [simp]: "focusables (open_lb i w) = focusables w"
  by (simp add: open_lb_def announce_def trapFocus_def rememberFocus_def hydrateItems_def Let_def
        split: option.splits)

lemma open_lb_activeElement [simp]: "activeElement (open_lb i w) = activeElement w"
  by (simp add: open_lb_def announce_def trapFocus_def rememberFocus_def hydrateItems_def Let_def
        split: option.splits)

lemma open_lb_opened:
  assumes "root (refs w) = Some r" and "items w \<noteq> []"
  shows "lastFocused (open_lb i w) =
           (case activeElement w of
              None \<Rightarrow> None
            | Some e \<Rightarrow> if e \<in> htmlElements w then Some e else None)"
    and "releaseFocusFn (open_lb i w) = Some (Release (fresh_handler w) (activeElement w))"
    and "keydown (open_lb i w) =
           keydown w @ [Trap (fresh_handler w) (case dialog (refs w) of None \<Rightarrow> r | Some d \<Rightarrow> d)]"
    and "fresh_handler (open_lb i w) = Suc (fresh_handler w)"
    and "items (open_lb i w) = items w"
  using assms
  by (simp_all add: open_lb_def announce_def trapFocus_def rememberFocus_def Let_def
        split: option.splits)


lemma run_microtask_frame [simp]:
  "releaseFocusFn (run_microtask m w) = releaseFocusFn w"
  "lastFocused (run_microtask m w) = lastFocused w"
  "focusables (run_microtask m w) = focusables w"
  "refs (run_microtask m w) = refs w"
  "keydown (run_microtask m w) = keydown w"
  "items (run_microtask m w) = items w"
  "index (run_microtask m w) = index w"
  by (simp_all add: run_microtask_def split: option.splits list.splits)

lemma fold_run_microtask_frame:
  "releaseFocusFn (fold run_microtask ms w) = releaseFocusFn w
   \<and> lastFocused (fold run_microtask ms w) = lastFocused w
   \<and> focusables (fold run_microtask ms w) = focusables w
   \<and> refs (fold run_microtask ms w) = refs w
   \<and> keydown (fold run_microtask ms w) = keydown w
   \<and> items (fold run_microtask ms w) = items w
   \<and> index (fold run_microtask ms w) = index w"
  by (induction ms arbitrary: w) simp_all

lemma run_microtasks_frame [simp]:
  "releaseFocusFn (run_microtasks w) = releaseFocusFn w"
  "lastFocused (run_microtasks w) = lastFocused w"
  "focusables (run_microtasks w) = focusables w"
  "refs (run_microtasks w) = refs w"
  "keydown (run_microtasks w) = keydown w"
  "items (run_microtasks w) = items w"
  "index (run_microtasks w) = index w"
  by (simp_all add: run_microtasks_def fold_run_microtask_frame)



lemma close_lb_released_keydown:
  "releaseFocusFn w = None \<Longrightarrow>
   releaseFocusFn (close_lb w) = None \<and> keydown (close_lb w) = keydown w"
  by (cases "root (refs w)") (simp_all add: close_lb_no_root close_lb_release close_lb_keydown)

lemma close_lb_funpow_keydown:
  "releaseFocusFn w = None \<Longrightarrow>
   releaseFocusFn ((close_lb ^^ n) w) = None \<and> keydown ((close_lb ^^ n) w) = keydown w"
  by (induction n) (simp_all add: close_lb_released_keydown)

lemma close_lb_releaseFocusFn: "releaseFocusFn w = None \<or> root (refs w) \<noteq> None \<Longrightarrow> releaseFocusFn (close_lb w) = None"
  by (cases "root (refs w)") (auto simp add: close_lb_no_root close_lb_release)

section \<open>Rendering and the announcer\<close>

lemma set_textContent_frame [simp]:
  "timers (set_textContent e t w) = timers w"
  "liveNode (set_textContent e t w) = liveNode w"
  "attrs (set_textContent e t w) = attrs w"
  by (simp_all add: set_textContent_def)

lemma updateUI_timers:
  "at_index (items w) (index w) = Some crd \<Longrightarrow>
   timers (updateUI w) =
     timers w @ [''Image '' @ js_String (index w + 1) @ '' of '' @ js_String (int (length (items w)))
                 @ (if resolve_caption w crd \<noteq> [] then '', '' @ resolve_caption w crd else [])]"
  by (simp add: updateUI_def announce_def Let_def liveRegion_timers split: option.splits)

lemma updateUI_liveNode:
  "at_index (items w) (index w) = Some crd \<Longrightarrow>
   liveNode (updateUI w) = Some \<lparr>aria_live = ''polite'', node_text = []\<rparr>"
  by (simp add: updateUI_def announce_def Let_def liveRegion_liveNode split: option.splits)

lemma fold_run_timer_liveNode:
  "liveNode w = Some n \<Longrightarrow>
   liveNode (fold run_timer ts w) = Some (n\<lparr>node_text := (if ts = [] then node_text n else last ts)\<rparr>)"
proof (induction ts arbitrary: w n)
  case Nil
  then show ?case by simp
next
  case (Cons t ts)
  have "liveNode (run_timer t w) = Some (n\<lparr>node_text := t\<rparr>)"
    using Cons.prems by (simp add: run_timer_def)
  from Cons.IH [OF this] show ?case by simp
qed


lemma run_timers_liveNode:
  "liveNode w = Some n \<Longrightarrow>
   liveNode (run_timers w) = Some (n\<lparr>node_text := (if timers w = [] then node_text n else last (timers w))\<rparr>)"
  by (simp add: run_timers_def fold_run_timer_liveNode)

lemma viewing_card: "at_index (items (viewing 1)) (index (viewing 1)) = Some 5"
  by (simp add: viewing_def at_index_def)

lemma cap_B: "resolve_caption (viewing 1) 5 = []"
  by (simp add: viewing_def resolve_caption_def page_def querySelector_def matchesAny_def getAttribute_def js_or_def truthy_def or_empty_def)

lemma attrs_updateUI_img:
  assumes "at_index (items w) (index w) = Some crd" and "img (refs w) = Some e"
    and "truthy (resolve_src w crd)"
  shows "attrs (updateUI w) e ''src'' = resolve_src w crd"
  using assms
  by (auto simp add: updateUI_def announce_def Let_def or_empty_def truthy_def split: option.splits)

section \<open>The markers after \<^verbatim>\<open>open\<close>\<close>

lemma attrs_updateUI_other:
  "k \<noteq> ''src'' \<Longrightarrow> k \<noteq> ''alt'' \<Longrightarrow> attrs (updateUI w) e k = attrs w e k"
  by (simp add: updateUI_def announce_def Let_def split: option.splits)

lemma attrs_rememberFocus [simp]: "attrs (rememberFocus w) = attrs w"
  by (simp add: rememberFocus_def)

lemma open_lb_markers:
  assumes "root (refs w) = Some r" and "items w \<noteq> []"
  shows "attrs (open_lb i w) r ''hidden'' = None"
    and "attrs (open_lb i w) r ''data-open'' = Some ''true''"
    and "attrs (open_lb i w) r ''aria-modal'' = Some ''true''"
  using assms
  by (simp_all add: open_lb_def announce_def trapFocus_def Let_def attrs_updateUI_other
        attrs_setAriaHiddenForBackground split: option.splits)

lemma open_lb_is_open: "root (refs w) = Some r \<Longrightarrow> items w \<noteq> [] \<Longrightarrow> is_open (open_lb i w)"
  by (simp add: is_open_def hasAttribute_def open_lb_markers)

section \<open>When the two snapshots agree\<close>

lemma hydrations_agree:
  assumes "gallery_grid w = Some g"
    and "document_querySelector w [HasAttr ''data-gallery-grid''] = Some g"
    and "\<And>e. e \<in> set (descendants w g) \<Longrightarrow> ''gallery__item'' \<in> set (classList w e)
            \<Longrightarrow> attrs w e ''data-gallery-item'' \<noteq> None"
  shows "items (hydrateItems w) = gallery_items (gallery_hydrateItems w)"
proof -
  have "filter (matchesAny w [HasAttr ''data-gallery-item'', Class ''gallery__item'']) (descendants w g)
          = filter (matchesAny w [HasAttr ''data-gallery-item'']) (descendants w g)"
    using assms(3) by (intro filter_cong) (auto simp add: matchesAny_def)
  then show ?thesis
    using assms(1,2) by (simp add: hydrateItems_def gallery_hydrateItems_def qsa_def)
qed

section \<open>The closed state\<close>



section \<open>What \<^verbatim>\<open>open\<close> and the microtasks leave alone\<close>

lemma static_frame [simp]:
  "ancestors (liveRegion m p w) = ancestors w"
  "htmlElements (liveRegion m p w) = htmlElements w"
  "ancestors (setAttribute e k v w) = ancestors w"
  "htmlElements (setAttribute e k v w) = htmlElements w"
  "ancestors (removeAttribute e k w) = ancestors w"
  "htmlElements (removeAttribute e k w) = htmlElements w"
  "ancestors (set_textContent e x w) = ancestors w"
  "htmlElements (set_textContent e x w) = htmlElements w"
  "ancestors (preloadNeighbors w) = ancestors w"
  "htmlElements (preloadNeighbors w) = htmlElements w"
  "ancestors (setAriaHiddenForBackground b w) = ancestors w"
  "htmlElements (setAriaHiddenForBackground b w) = htmlElements w"
  by (simp_all add: liveRegion_def setAttribute_def removeAttribute_def set_textContent_def
        preloadNeighbors_def preload_def setAriaHiddenForBackground_def Let_def split: option.splits)

lemma updateUI_static [simp]:
  "ancestors (updateUI w) = ancestors w"
  "htmlElements (updateUI w) = htmlElements w"
  by (simp_all add: updateUI_def announce_def Let_def split: option.splits)

lemma open_lb_ancestors [simp]: "ancestors (open_lb i w) = ancestors w"
  by (simp add: open_lb_def announce_def trapFocus_def rememberFocus_def hydrateItems_def Let_def
        split: option.splits)

lemma open_lb_htmlElements [simp]: "htmlElements (open_lb i w) = htmlElements w"
  by (simp add: open_lb_def announce_def trapFocus_def rememberFocus_def hydrateItems_def Let_def
        split: option.splits)

lemma run_microtask_htmlElements [simp]: "htmlElements (run_microtask m w) = htmlElements w"
  by (simp add: run_microtask_def focus_def split: option.splits list.splits)

lemma run_microtasks_htmlElements [simp]: "htmlElements (run_microtasks w) = htmlElements w"
proof -
  have "htmlElements (fold run_microtask ms w) = htmlElements w" for ms
    by (induction ms arbitrary: w) simp_all
  then show ?thesis by (simp add: run_microtasks_def)
qed

lemma rememberFocus_frame [simp]:
  "refs (rememberFocus w) = refs w"
  "releaseFocusFn (rememberFocus w) = releaseFocusFn w"
  "focusables (rememberFocus w) = focusables w"
  "activeElement (rememberFocus w) = activeElement w"
  by (simp_all add: rememberFocus_def)

section \<open>Clicks inside the lightbox\<close>

lemma next_lb_refs [simp]: "refs (next_lb w) = refs w"
  by (simp add: next_lb_def)

lemma prev_lb_refs [simp]: "refs (prev_lb w) = refs w"
  by (simp add: prev_lb_def)

lemma onBackdropClick_refs [simp]: "refs (onBackdropClick t w) = refs w"
  by (simp add: onBackdropClick_def)

lemma next_lb_is_open [simp]: "is_open (next_lb w) = is_open w"
  by (simp add: is_open_def hasAttribute_def next_lb_def attrs_updateUI_other split: option.splits)

lemma prev_lb_is_open [simp]: "is_open (prev_lb w) = is_open w"
  by (simp add: is_open_def hasAttribute_def prev_lb_def attrs_updateUI_other split: option.splits)

lemma click_listeners_refs [simp]: "refs (click_listeners e t w) = refs w"
  by (simp add: click_listeners_def Let_def split: option.splits)

lemma click_listeners_not_open: "\<not> is_open w \<Longrightarrow> \<not> is_open (click_listeners e t w)"
  by (simp add: click_listeners_def Let_def onBackdropClick_def close_lb_not_open split: option.splits)

lemma click_listeners_closeBtn:
  "root (refs w) \<noteq> None \<Longrightarrow> closeBtn (refs w) = Some e \<Longrightarrow> \<not> is_open (click_listeners e t w)"
  by (auto simp add: click_listeners_def Let_def onBackdropClick_def close_lb_not_open split: option.splits)

lemma fold_click_listeners_refs [simp]:
  "refs (fold (\<lambda>e. click_listeners e t) path w) = refs w"
  by (induction path arbitrary: w) simp_all

lemma fold_click_listeners_not_open:
  "\<not> is_open w \<Longrightarrow> \<not> is_open (fold (\<lambda>e. click_listeners e t) path w)"
  by (induction path arbitrary: w) (simp_all add: click_listeners_not_open)

lemma fold_click_listeners_closeBtn:
  "root (refs w) \<noteq> None \<Longrightarrow> closeBtn (refs w) = Some c \<Longrightarrow> c \<in> set path \<Longrightarrow>
   \<not> is_open (fold (\<lambda>e. click_listeners e t) path w)"
proof (induction path arbitrary: w)
  case Nil
  then show ?case by simp
next
  case (Cons e path)
  show ?case
  proof (cases "e = c")
    case True
    have "\<not> is_open (click_listeners e t w)"
      using Cons.prems(1,2) True by (simp add: click_listeners_closeBtn)
    then show ?thesis by (simp add: fold_click_listeners_not_open)
  next
    case False
    then have "c \<in> set path" using Cons.prems(3) by simp
    then show ?thesis using Cons.IH [of "click_listeners e t w"] Cons.prems(1,2) by simp
  qed
qed

lemma click_listeners_keeps_open:
  "is_open w \<Longrightarrow> closeBtn (refs w) \<noteq> Some e \<Longrightarrow> Some t \<noteq> root (refs w) \<Longrightarrow>
   Some t \<noteq> backdrop (refs w) \<Longrightarrow> is_open (click_listeners e t w)"
  by (auto simp add: click_listeners_def Let_def onBackdropClick_def split: option.splits)

lemma fold_click_listeners_keeps_open:
  assumes "is_open w" and "\<forall>e \<in> set path. closeBtn (refs w) \<noteq> Some e"
    and "Some t \<noteq> root (refs w)" and "Some t \<noteq> backdrop (refs w)"
  shows "is_open (fold (\<lambda>e. click_listeners e t) path w)"
  using assms
proof (induction path arbitrary: w)
  case Nil
  then show ?case by simp
next
  case (Cons e path)
  have "is_open (click_listeners e t w)"
    using Cons.prems by (simp add: click_listeners_keeps_open)
  then show ?case using Cons.IH [of "click_listeners e t w"] Cons.prems by simp
qed

lemma click_listeners_root:
  "root (refs w) = Some e \<Longrightarrow> Some t = root (refs w) \<or> Some t = backdrop (refs w) \<Longrightarrow>
   \<not> is_open (click_listeners e t w)"
  by (auto simp add: click_listeners_def Let_def onBackdropClick_def close_lb_not_open
        split: option.splits)

lemma fold_click_listeners_root:
  "root (refs w) = Some r \<Longrightarrow> Some t = root (refs w) \<or> Some t = backdrop (refs w) \<Longrightarrow>
   r \<in> set path \<Longrightarrow> \<not> is_open (fold (\<lambda>e. click_listeners e t) path w)"
proof (induction path arbitrary: w)
  case Nil
  then show ?case by simp
next
  case (Cons e path)
  show ?case
  proof (cases "e = r")
    case True
    have "\<not> is_open (click_listeners e t w)"
      using Cons.prems(1,2) True by (simp add: click_listeners_root)
    then show ?thesis by (simp add: fold_click_listeners_not_open)
  next
    case False
    then have "r \<in> set path" using Cons.prems(3) by simp
    then show ?thesis using Cons.IH [of "click_listeners e t w"] Cons.prems(1,2) by simp
  qed
qed

section \<open>The claims\<close>

subsection \<open>C1: the index after \<^verbatim>\<open>open\<close> and after navigation\<close>

text \<open>
  As stated, C1 says that with a non-empty snapshot \<open>0 \<le> index < length\<close> holds after
  every operation, and that \<^verbatim>\<open>open(index)\<close> brings an out-of-range index to \<open>0\<close>. The
  source assigns \<^verbatim>\<open>state.index = index\<close> and nothing else: on the sample page, whose grid
  holds three cards, \<^verbatim>\<open>open(5)\<close> leaves the index at 5.
\<close>

theorem open_out_of_range_counterexample:
  "items (open_lb 5 page) = [3, 5, 8] \<and> index (open_lb 5 page) = 5
   \<and> \<not> (0 \<le> index (open_lb 5 page) \<and> index (open_lb 5 page) < int (length (items (open_lb 5 page))))"
proof -
  have r: "root (refs page) = Some 10" and e: "items page = []" by (simp_all add: page_def)
  have it: "items (open_lb 5 page) = [3, 5, 8]" using r e by (simp add: open_lb_items hydrate_page)
  have ix: "index (open_lb 5 page) = 5" using r it by (subst open_lb_index) simp
  show ?thesis using it ix by simp
qed

text \<open>
  C1, amended: \<^verbatim>\<open>next\<close>, \<^verbatim>\<open>prev\<close> and \<^verbatim>\<open>close\<close>, and the key and backdrop handlers that call
  them, preserve the index invariant; \<^verbatim>\<open>open(i)\<close>, when it opens, stores \<open>i\<close> as given,
  without clamping; so \<^verbatim>\<open>open(i)\<close> keeps the invariant when \<open>i\<close> is a position of the
  snapshot it opens on.
\<close>

theorem index_invariant_amended:
  "(index_ok w \<longrightarrow> index_ok (next_lb w) \<and> index_ok (prev_lb w) \<and> index_ok (close_lb w)
                   \<and> index_ok (onKeydown key w) \<and> index_ok (onBackdropClick target w))
   \<and> (root (refs w) \<noteq> None \<and> items (open_lb i w) \<noteq> [] \<longrightarrow> index (open_lb i w) = i)
   \<and> (index_ok w \<and> 0 \<le> i \<and> i < int (length (items (open_lb i w))) \<longrightarrow> index_ok (open_lb i w))"
proof -
  have a: "index_ok w \<longrightarrow> index_ok (next_lb w) \<and> index_ok (prev_lb w) \<and> index_ok (close_lb w)
                   \<and> index_ok (onKeydown key w) \<and> index_ok (onBackdropClick target w)"
    by (simp add: next_lb_index_ok prev_lb_index_ok close_lb_index_ok onKeydown_index_ok
          onBackdropClick_index_ok)
  have b: "root (refs w) \<noteq> None \<and> items (open_lb i w) \<noteq> [] \<longrightarrow> index (open_lb i w) = i"
    by (simp add: open_lb_index)
  have c: "index_ok w \<and> 0 \<le> i \<and> i < int (length (items (open_lb i w))) \<longrightarrow> index_ok (open_lb i w)"
  proof (cases "root (refs w) \<noteq> None \<and> items (open_lb i w) \<noteq> []")
    case True
    then show ?thesis using b by (simp add: index_ok_def)
  next
    case False
    then have "index (open_lb i w) = index w" by (subst open_lb_index) auto
    moreover have "items (open_lb i w) \<noteq> [] \<longrightarrow> items (open_lb i w) = items w"
      using False by (auto simp add: open_lb_items)
    ultimately show ?thesis by (auto simp add: index_ok_def)
  qed
  show ?thesis using a b c by blast
qed

theorem index_invariant_amended_witness:
  "index_ok (viewing 1) \<and> root (refs (viewing 1)) \<noteq> None \<and> items (open_lb 2 (viewing 1)) \<noteq> []
   \<and> index_ok (next_lb (viewing 1)) \<and> index_ok (prev_lb (viewing 1))
   \<and> index_ok (close_lb (viewing 1)) \<and> index_ok (onKeydown ''ArrowRight'' (viewing 1))
   \<and> index_ok (onBackdropClick 11 (viewing 1))
   \<and> index (open_lb 2 (viewing 1)) = 2 \<and> index_ok (open_lb 2 (viewing 1))"
proof -
  have ok: "index_ok (viewing 1)" by (simp add: index_ok_def viewing_def)
  have r: "root (refs (viewing 1)) \<noteq> None" by (simp add: viewing_def page_def)
  have it: "items (open_lb 2 (viewing 1)) = [3, 5, 8]" by (simp add: open_lb_items) (simp add: viewing_def)
  show ?thesis
    using index_invariant_amended [of "viewing 1" "''ArrowRight''" 11 2] ok r it by simp
qed

subsection \<open>C2: navigation wraps\<close>

text \<open>
  C2: with \<open>n\<close> items and a starting index \<open>i\<close>, \<open>0 \<le> i < n\<close>, calling \<^verbatim>\<open>next\<close> \<open>n\<close> times
  returns the index to \<open>i\<close>, and so does calling \<^verbatim>\<open>prev\<close> \<open>n\<close> times. Navigation wraps at
  both ends: \<^verbatim>\<open>next\<close> at the last index gives 0, \<^verbatim>\<open>prev\<close> at 0 gives the last index, and
  everywhere else they step by one, so no position blocks a move.
\<close>

theorem wrap_invariant:
  assumes "items w \<noteq> []" and "0 \<le> index w" and "index w < int (length (items w))"
  shows "index ((next_lb ^^ length (items w)) w) = index w
       \<and> index ((prev_lb ^^ length (items w)) w) = index w
       \<and> index (next_lb w) = (if index w = int (length (items w)) - 1 then 0 else index w + 1)
       \<and> index (prev_lb w) = (if index w = 0 then int (length (items w)) - 1 else index w - 1)"
proof -
  let ?n = "int (length (items w))"
  have n: "0 < ?n" using assms by simp
  have a: "index ((next_lb ^^ length (items w)) w) = index w"
    using next_funpow [OF assms(1,2), of "length (items w)"] assms by simp
  have b: "index ((prev_lb ^^ length (items w)) w) = index w"
    using prev_funpow [OF assms(1,2), of "length (items w)"] assms by simp
  have c: "index (next_lb w) = (if index w = ?n - 1 then 0 else index w + 1)"
    using assms n by (simp add: next_lb_index nextIndex_mod)
  have d: "index (prev_lb w) = (if index w = 0 then ?n - 1 else index w - 1)"
    using assms n by (simp add: prev_lb_index prevIndex_mod zmod_minus1)
  show ?thesis using a b c d by simp
qed

theorem wrap_invariant_witness:
  "items (viewing 2) \<noteq> [] \<and> 0 \<le> index (viewing 2) \<and> index (viewing 2) < int (length (items (viewing 2)))
   \<and> index ((next_lb ^^ length (items (viewing 2))) (viewing 2)) = 2
   \<and> index ((prev_lb ^^ length (items (viewing 2))) (viewing 2)) = 2
   \<and> index (next_lb (viewing 2)) = 0
   \<and> index (prev_lb (viewing 2)) = 1"
proof -
  have a: "items (viewing 2) \<noteq> []" and b: "0 \<le> index (viewing 2)"
    and c: "index (viewing 2) < int (length (items (viewing 2)))"
    and i: "index (viewing 2) = 2" and n: "int (length (items (viewing 2))) = 3"
    by (simp_all add: viewing_def)
  show ?thesis using wrap_invariant [OF a b c] a b c by (simp add: i n)
qed

subsection \<open>C3: the two snapshots of the gallery\<close>

text \<open>
  C3 says that the lightbox and the gallery hydrate equal sequences from the grid, so that
  the index the gallery emits for a card selects that card in the lightbox. The gallery
  collects \<^verbatim>\<open>[data-gallery-item]\<close>; the lightbox collects
  \<^verbatim>\<open>[data-gallery-item], .gallery__item\<close>. On the page whose first card carries only the
  class, the gallery's snapshot is \<open>[5, 8]\<close> and the lightbox's is \<open>[3, 5, 8]\<close>: a click on
  the link 7 of card 5 emits index 0, and the lightbox opens on card 3.
\<close>

theorem hydrations_disagree:
  "gallery_items (gallery_hydrateItems (gallery_initRefs legacy_page)) = [5, 8]
   \<and> items (hydrateItems legacy_page) = [3, 5, 8]
   \<and> closest (gallery_hydrateItems (gallery_initRefs legacy_page)) 7 [HasAttr ''data-gallery-item'']
        = Some 5
   \<and> emitted_index (gallery_hydrateItems (gallery_initRefs legacy_page)) 5 = Some 0
   \<and> index (gallery_onClick 7 (gallery_hydrateItems (gallery_initRefs legacy_page))) = 0
   \<and> at_index (items (gallery_onClick 7 (gallery_hydrateItems (gallery_initRefs legacy_page))))
               (index (gallery_onClick 7 (gallery_hydrateItems (gallery_initRefs legacy_page))))
        = Some 3"
proof -
  define g where "g = gallery_hydrateItems (gallery_initRefs legacy_page)"
  have gi: "gallery_items g = [5, 8]"
    by (simp add: g_def gallery_hydrateItems_def gallery_initRefs_def legacy_page_def page_def
          document_querySelector_def qsa_def matchesAny_def)
  have l: "items (hydrateItems legacy_page) = [3, 5, 8]"
    by (simp add: hydrateItems_def legacy_page_def page_def document_querySelector_def qsa_def
          matchesAny_def)
  have lg: "items (hydrateItems g) = [3, 5, 8]"
    by (simp add: g_def gallery_hydrateItems_def gallery_initRefs_def hydrateItems_def
          legacy_page_def page_def document_querySelector_def qsa_def matchesAny_def)
  have c: "closest g 7 [HasAttr ''data-gallery-item''] = Some 5"
    by (simp add: g_def gallery_hydrateItems_def gallery_initRefs_def closest_def legacy_page_def
          page_def document_querySelector_def matchesAny_def)
  have e: "emitted_index g 5 = Some 0" by (simp add: emitted_index_def gi)
  have r: "root (refs g) = Some 10" and i0: "items g = []"
    by (simp_all add: g_def gallery_hydrateItems_def gallery_initRefs_def legacy_page_def page_def
          document_querySelector_def matchesAny_def)
  have click: "gallery_onClick 7 g = open_lb 0 g"
    by (simp add: gallery_onClick_def c e onOpenRequested_def)
  have it: "items (open_lb 0 g) = [3, 5, 8]" using r i0 by (simp add: open_lb_items lg)
  have ix: "index (open_lb 0 g) = 0" using r it by (subst open_lb_index) simp
  show ?thesis unfolding g_def [symmetric] using gi l c e click it ix by (simp add: at_index_def)
qed

subsection \<open>C4: the order in which the image source is resolved\<close>

text \<open>
  C4 says that the card's own \<^verbatim>\<open>data-full\<close> wins over the nested image's, and that the
  nested image's plain \<^verbatim>\<open>src\<close> is used only as a last resort, after the link's \<^verbatim>\<open>href\<close>.
  \<^verbatim>\<open>updateUI\<close> reads \<^verbatim>\<open>src\<close> before \<^verbatim>\<open>href\<close>. Card 5 of the sample page has a thumbnail
  with \<^verbatim>\<open>src\<close> and a link to the full image: the viewer shows the thumbnail, while
  \<^verbatim>\<open>preloadNeighbors\<close>, which follows the documented order, resolves the same card to the
  link's target.
\<close>

theorem link_href_checked_last:
  "querySelector (viewing 1) 5 [Tag ''a''] = Some 7
   \<and> getAttribute (viewing 1) 7 ''href'' = Some ''b-full.jpg''
   \<and> resolve_src (viewing 1) 5 = Some ''b-thumb.jpg''
   \<and> attrs (updateUI (viewing 1)) 14 ''src'' = Some ''b-thumb.jpg''
   \<and> preloadSrc (viewing 1) (Some 5) = Some ''b-full.jpg''"
proof -
  have q: "querySelector (viewing 1) 5 [Tag ''a''] = Some 7"
    by (simp add: viewing_def page_def querySelector_def matchesAny_def)
  have h: "getAttribute (viewing 1) 7 ''href'' = Some ''b-full.jpg''"
    by (simp add: viewing_def page_def getAttribute_def)
  have s: "resolve_src (viewing 1) 5 = Some ''b-thumb.jpg''"
    by (simp add: resolve_src_def viewing_def page_def querySelector_def matchesAny_def
          getAttribute_def js_or_def truthy_def)
  have i: "img (refs (viewing 1)) = Some 14" by (simp add: viewing_def page_def)
  have u: "attrs (updateUI (viewing 1)) 14 ''src'' = Some ''b-thumb.jpg''"
    using attrs_updateUI_img [OF viewing_card i] s by (simp add: truthy_def)
  have p: "preloadSrc (viewing 1) (Some 5) = Some ''b-full.jpg''"
    by (simp add: preloadSrc_def viewing_def page_def querySelector_def matchesAny_def
          getAttribute_def js_or_def truthy_def)
  show ?thesis using q h s u p by simp
qed

subsection \<open>C5: closing twice, and closing a closed viewer\<close>




subsection \<open>C6: the focus returns to the trigger\<close>



subsection \<open>C7: the empty gallery\<close>

text \<open>
  C7: when the snapshot is empty and hydrating it again finds no item, \<^verbatim>\<open>open(index)\<close>,
  \<^verbatim>\<open>next()\<close> and \<^verbatim>\<open>prev()\<close> return the state they were given: the root keeps its markers,
  so a closed viewer stays closed, and nothing is announced. Each of the three returns
  early in the source, before any statement that could throw.
\<close>

theorem empty_gallery:
  assumes "items w = []" and "items (hydrateItems w) = []"
  shows "open_lb i w = w \<and> next_lb w = w \<and> prev_lb w = w"
proof -
  have "hydrateItems w = w\<lparr>items := items (hydrateItems w)\<rparr>" by (simp add: hydrateItems_def)
  then have h: "hydrateItems w = w" using assms by simp
  have "open_lb i w = w" using assms h by (simp add: open_lb_def split: option.splits)
  moreover have "next_lb w = w" using assms by (simp add: next_lb_def)
  moreover have "prev_lb w = w" using assms by (simp add: prev_lb_def)
  ultimately show ?thesis by simp
qed

theorem empty_gallery_witness:
  "items bare_page = [] \<and> items (hydrateItems bare_page) = []
   \<and> open_lb 0 bare_page = bare_page \<and> next_lb bare_page = bare_page
   \<and> prev_lb bare_page = bare_page \<and> \<not> is_open (open_lb 0 bare_page)"
proof -
  have a: "items bare_page = []" by (simp add: bare_page_def page_def)
  have b: "items (hydrateItems bare_page) = []"
    by (simp add: hydrateItems_def bare_page_def page_def document_querySelector_def matchesAny_def)
  have c: "\<not> is_open bare_page" by (simp add: is_open_def hasAttribute_def bare_page_def page_def)
  show ?thesis using empty_gallery [OF a b, of 0] a b c by simp
qed

subsection \<open>C8: what is announced on rendering\<close>

text \<open>
  C8: rendering the item at index \<open>i\<close> of \<open>n\<close> queues, for the polite live region, exactly
  the announcement of the specification: \<open>Image {i+1} of {n}\<close> when the resolved caption
  is empty, \<open>Image {i+1} of {n}, {caption}\<close> otherwise; and that is the text of the live
  region once its timers have fired.
\<close>

theorem caption_announcement:
  assumes "at_index (items w) (index w) = Some crd"
  shows "timers (updateUI w) = timers w @ [announcement (index w) (length (items w)) (resolve_caption w crd)]
       \<and> liveNode (updateUI w) = Some \<lparr>aria_live = ''polite'', node_text = []\<rparr>
       \<and> liveNode (run_timers (updateUI w))
           = Some \<lparr>aria_live = ''polite'',
                   node_text = announcement (index w) (length (items w)) (resolve_caption w crd)\<rparr>"
proof -
  have t: "timers (updateUI w)
             = timers w @ [announcement (index w) (length (items w)) (resolve_caption w crd)]"
    using updateUI_timers [OF assms] by (simp add: announcement_def)
  have n: "liveNode (updateUI w) = Some \<lparr>aria_live = ''polite'', node_text = []\<rparr>"
    by (rule updateUI_liveNode [OF assms])
  have "liveNode (run_timers (updateUI w))
           = Some \<lparr>aria_live = ''polite'',
                   node_text = announcement (index w) (length (items w)) (resolve_caption w crd)\<rparr>"
    using run_timers_liveNode [OF n] t by simp
  then show ?thesis using t n by simp
qed

theorem caption_announcement_witness:
  "at_index (items (viewing 1)) (index (viewing 1)) = Some 5
   \<and> resolve_caption (viewing 1) 5 = []
   \<and> timers (updateUI (viewing 1)) = [''Image 2 of 3'']
   \<and> liveNode (run_timers (updateUI (viewing 1)))
        = Some \<lparr>aria_live = ''polite'', node_text = ''Image 2 of 3''\<rparr>
   \<and> at_index (items (viewing 0)) (index (viewing 0)) = Some 3
   \<and> resolve_caption (viewing 0) 3 = ''Sunset''
   \<and> timers (updateUI (viewing 0)) = [''Image 1 of 3, Sunset'']"
proof -
  have c: "at_index (items (viewing 1)) (index (viewing 1)) = Some 5"
    and c0: "at_index (items (viewing 0)) (index (viewing 0)) = Some 3"
    by (simp_all add: viewing_def at_index_def)
  have cap0: "resolve_caption (viewing 0) 3 = ''Sunset''"
    by (simp add: viewing_def resolve_caption_def page_def querySelector_def matchesAny_def
          getAttribute_def js_or_def truthy_def or_empty_def)
  have a: "announcement (index (viewing 1)) (length (items (viewing 1))) (resolve_caption (viewing 1) 5)
             = ''Image 2 of 3''"
    by (simp add: cap_B announcement_def) (simp add: viewing_def js_String_def digits.simps)
  have a0: "announcement (index (viewing 0)) (length (items (viewing 0))) (resolve_caption (viewing 0) 3)
             = ''Image 1 of 3, Sunset''"
    by (simp add: cap0 announcement_def) (simp add: viewing_def js_String_def digits.simps)
  have t: "timers (viewing 1) = []" "timers (viewing 0) = []" by (simp_all add: viewing_def page_def)
  show ?thesis
    using caption_announcement [OF c] caption_announcement [OF c0] c c0 a a0 t cap_B cap0 by simp
qed

subsection \<open>C9: clicks on the root and inside the dialog\<close>

text \<open>
  As stated, C9 says that a click closes the viewer exactly when its target is the root
  or the backdrop, and that a click on any element inside the dialog does not close it.
  That is what the root's own handler does, but the close control has a click handler of
  its own: on the sample page the close button 13 lies inside the dialog 12, and a click
  on it closes the viewer.
\<close>

theorem dialog_click_counterexample:
  "is_open (open_lb 0 (viewing 0))
   \<and> dialog (refs (open_lb 0 (viewing 0))) = Some 12
   \<and> 13 \<in> set (descendants (viewing 0) 12)
   \<and> Some 13 \<noteq> root (refs (open_lb 0 (viewing 0)))
   \<and> Some 13 \<noteq> backdrop (refs (open_lb 0 (viewing 0)))
   \<and> \<not> is_open (click 13 (open_lb 0 (viewing 0)))"
proof -
  have r: "root (refs (viewing 0)) = Some 10" and i: "items (viewing 0) \<noteq> []"
    and b: "backdrop (refs (viewing 0)) = Some 11" and c: "closeBtn (refs (viewing 0)) = Some 13"
    and d: "dialog (refs (viewing 0)) = Some 12" "13 \<in> set (descendants (viewing 0) 12)"
    by (simp_all add: viewing_def page_def)
  have o: "is_open (open_lb 0 (viewing 0))" by (rule open_lb_is_open [OF r i])
  have "\<not> is_open (click 13 (open_lb 0 (viewing 0)))"
    unfolding click_def by (rule fold_click_listeners_closeBtn [where c = 13]) (simp_all add: r c)
  then show ?thesis using o r b d by simp
qed

text \<open>
  C9, amended: while the viewer is open, the root's click handler closes it exactly when
  the target of the click is the root element itself or the backdrop element, and leaves
  the state as it is for every other target: it compares identities and never asks
  whether the target lies inside some element. A click that reaches the root closes the
  viewer exactly when its target is the root, the backdrop, or the close control or an
  element inside the close control; every other click inside the dialog leaves it open.
\<close>

theorem click_closes_amended:
  assumes "is_open w"
  shows "(is_open (onBackdropClick target w)
            \<longleftrightarrow> \<not> (Some target = root (refs w) \<or> Some target = backdrop (refs w)))
       \<and> (Some target \<noteq> root (refs w) \<and> Some target \<noteq> backdrop (refs w)
            \<longrightarrow> onBackdropClick target w = w)
       \<and> (Some target = root (refs w) \<or> Some target = backdrop (refs w)
            \<longrightarrow> onBackdropClick target w = close_lb w)
       \<and> (\<forall>r. root (refs w) = Some r \<and> r \<in> set (target # ancestors w target) \<longrightarrow>
              (is_open (click target w)
                 \<longleftrightarrow> \<not> (Some target = root (refs w) \<or> Some target = backdrop (refs w)
                        \<or> (\<exists>c \<in> set (target # ancestors w target). closeBtn (refs w) = Some c))))"
proof -
  have h: "(is_open (onBackdropClick target w)
            \<longleftrightarrow> \<not> (Some target = root (refs w) \<or> Some target = backdrop (refs w)))
       \<and> (Some target \<noteq> root (refs w) \<and> Some target \<noteq> backdrop (refs w)
            \<longrightarrow> onBackdropClick target w = w)
       \<and> (Some target = root (refs w) \<or> Some target = backdrop (refs w)
            \<longrightarrow> onBackdropClick target w = close_lb w)"
    using assms by (simp add: onBackdropClick_def close_lb_not_open)
  have d: "is_open (click target w)
                 \<longleftrightarrow> \<not> (Some target = root (refs w) \<or> Some target = backdrop (refs w)
                        \<or> (\<exists>c \<in> set (target # ancestors w target). closeBtn (refs w) = Some c))"
    if r: "root (refs w) = Some r" and p: "r \<in> set (target # ancestors w target)" for r
  proof (cases "Some target = root (refs w) \<or> Some target = backdrop (refs w)")
    case True
    then have "\<not> is_open (click target w)"
      unfolding click_def using r p by (intro fold_click_listeners_root)
    then show ?thesis using True by blast
  next
    case False
    show ?thesis
    proof (cases "\<exists>c \<in> set (target # ancestors w target). closeBtn (refs w) = Some c")
      case True
      then obtain c where c: "c \<in> set (target # ancestors w target)" "closeBtn (refs w) = Some c"
        by blast
      have "\<not> is_open (click target w)"
        unfolding click_def using r c by (intro fold_click_listeners_closeBtn) simp_all
      then show ?thesis using True by blast
    next
      case no: False
      have "is_open (click target w)"
        unfolding click_def using assms no False by (intro fold_click_listeners_keeps_open) auto
      then show ?thesis using no False by blast
    qed
  qed
  show ?thesis using h d by blast
qed

theorem click_closes_amended_witness:
  "is_open (open_lb 0 (viewing 0))
   \<and> root (refs (open_lb 0 (viewing 0))) = Some 10
   \<and> ancestors (open_lb 0 (viewing 0)) 14 = [12, 10]
   \<and> ancestors (open_lb 0 (viewing 0)) 13 = [12, 10]
   \<and> ancestors (open_lb 0 (viewing 0)) 11 = [10]
   \<and> is_open (onBackdropClick 14 (open_lb 0 (viewing 0)))
   \<and> \<not> is_open (onBackdropClick 11 (open_lb 0 (viewing 0)))
   \<and> is_open (click 14 (open_lb 0 (viewing 0)))
   \<and> \<not> is_open (click 13 (open_lb 0 (viewing 0)))
   \<and> \<not> is_open (click 11 (open_lb 0 (viewing 0)))
   \<and> \<not> is_open (click 10 (open_lb 0 (viewing 0)))"
proof -
  have r: "root (refs (viewing 0)) = Some 10" and i: "items (viewing 0) \<noteq> []"
    and b: "backdrop (refs (viewing 0)) = Some 11" and c: "closeBtn (refs (viewing 0)) = Some 13"
    and a: "ancestors (viewing 0) 14 = [12, 10]" "ancestors (viewing 0) 13 = [12, 10]"
      "ancestors (viewing 0) 11 = [10]" "ancestors (viewing 0) 10 = []"
    by (simp_all add: viewing_def page_def)
  have o: "is_open (open_lb 0 (viewing 0))" by (rule open_lb_is_open [OF r i])
  show ?thesis
    using click_closes_amended [OF o, of 14] click_closes_amended [OF o, of 13]
      click_closes_amended [OF o, of 11] click_closes_amended [OF o, of 10] o r b c a
    by (simp add: close_lb_not_open)
qed

subsection \<open>C10: opening an open viewer\<close>

text \<open>
  C10: \<^verbatim>\<open>open\<close> called on an open viewer installs a second trap and stores its cleanup
  closure over the first, which is not called: both handlers are then registered on the
  document. \<^verbatim>\<open>close\<close> calls the stored closure only, which removes the second handler;
  the first stays registered after any number of calls of \<^verbatim>\<open>close\<close>.
\<close>

theorem reopen_leaks_trap:
  assumes "root (refs w) = Some r" and "items w \<noteq> []"
  shows "is_open (open_lb i w)
       \<and> releaseFocusFn (open_lb i w) = Some (Release (fresh_handler w) (activeElement w))
       \<and> releaseFocusFn (open_lb j (open_lb i w))
            = Some (Release (Suc (fresh_handler w)) (activeElement w))
       \<and> fresh_handler w \<in> trap_id ` set (keydown (open_lb j (open_lb i w)))
       \<and> Suc (fresh_handler w) \<in> trap_id ` set (keydown (open_lb j (open_lb i w)))
       \<and> Suc (fresh_handler w) \<notin> trap_id ` set (keydown (close_lb (open_lb j (open_lb i w))))
       \<and> (\<forall>n. fresh_handler w \<in> trap_id ` set (keydown ((close_lb ^^ n) (open_lb j (open_lb i w)))))"
proof -
  let ?h = "fresh_handler w"
  let ?c = "case dialog (refs w) of None \<Rightarrow> r | Some d \<Rightarrow> d"
  let ?w1 = "open_lb i w"
  let ?w2 = "open_lb j ?w1"
  have r1: "root (refs ?w1) = Some r" and i1: "items ?w1 \<noteq> []"
    using assms open_lb_opened(5) [OF assms] by simp_all
  have r2: "root (refs ?w2) = Some r" using assms by simp
  have rel1: "releaseFocusFn ?w1 = Some (Release ?h (activeElement w))"
    by (rule open_lb_opened(2) [OF assms])
  have rel2: "releaseFocusFn ?w2 = Some (Release (Suc ?h) (activeElement w))"
    using open_lb_opened(2) [OF r1 i1] open_lb_opened(4) [OF assms] by simp
  have k2: "keydown ?w2 = keydown w @ [Trap ?h ?c, Trap (Suc ?h) ?c]"
    using open_lb_opened(3) [OF r1 i1] open_lb_opened(3,4) [OF assms] by simp
  have kc: "keydown (close_lb ?w2) = filter (\<lambda>t. trap_id t \<noteq> Suc ?h) (keydown ?w2)"
    using r2 rel2 by (simp add: close_lb_keydown)
  have in2: "?h \<in> trap_id ` set (keydown ?w2)" and in2': "Suc ?h \<in> trap_id ` set (keydown ?w2)"
    using k2 by simp_all
  have out: "Suc ?h \<notin> trap_id ` set (keydown (close_lb ?w2))"
    using kc by auto
  have inc: "?h \<in> trap_id ` set (keydown (close_lb ?w2))"
    using kc k2 by simp
  have relc: "releaseFocusFn (close_lb ?w2) = None" using r2 by (rule close_lb_release)
  have "?h \<in> trap_id ` set (keydown ((close_lb ^^ n) ?w2))" for n
  proof (cases n)
    case 0
    then show ?thesis using in2 by simp
  next
    case (Suc m)
    have "(close_lb ^^ Suc m) ?w2 = (close_lb ^^ m) (close_lb ?w2)" by (simp add: funpow_swap1)
    then show ?thesis using close_lb_funpow_keydown [OF relc, of m] inc Suc by simp
  qed
  moreover have "is_open ?w1" by (rule open_lb_is_open [OF assms])
  ultimately show ?thesis using rel1 rel2 in2 in2' out by blast
qed

theorem reopen_leaks_trap_witness:
  "root (refs (viewing 0)) = Some 10 \<and> items (viewing 0) \<noteq> []
   \<and> is_open (open_lb 0 (viewing 0))
   \<and> releaseFocusFn (open_lb 0 (viewing 0)) = Some (Release 0 (Some 7))
   \<and> releaseFocusFn (open_lb 1 (open_lb 0 (viewing 0))) = Some (Release 1 (Some 7))
   \<and> 0 \<in> trap_id ` set (keydown (open_lb 1 (open_lb 0 (viewing 0))))
   \<and> 1 \<notin> trap_id ` set (keydown (close_lb (open_lb 1 (open_lb 0 (viewing 0)))))
   \<and> 0 \<in> trap_id ` set (keydown ((close_lb ^^ 2) (open_lb 1 (open_lb 0 (viewing 0)))))"
proof -
  have r: "root (refs (viewing 0)) = Some 10" and i: "items (viewing 0) \<noteq> []"
    and f: "fresh_handler (viewing 0) = 0" and a: "activeElement (viewing 0) = Some 7"
    by (simp_all add: viewing_def page_def)
  have o: "is_open (open_lb 0 (viewing 0))" by (rule open_lb_is_open [OF r i])
  show ?thesis using reopen_leaks_trap [OF r i, of 0 1] r i o by (simp add: f a)
qed

end
